theory Spec2Isabelle
  imports Main
begin

section \<open>The console redirection of \<open>bootstrap.py\<close>\<close>

text \<open>
  The bootstrap script replaces \<open>sys.stdout\<close> and \<open>sys.stderr\<close> by two objects of the
  class \<open>_BAConsoleRedirect\<close>. An object echoes every write through a callback, collects
  the written fragments in \<open>_linebits\<close> and hands the collected line to \<open>_ba.log\<close>,
  at once when the fragment ends in a newline and through \<open>_ba.pushcall\<close> otherwise.

  The embedding is sequential: one method call runs to its end before the next starts.
  Everything a method does to a collaborator (the echo callback, \<open>_ba.pushcall\<close>,
  \<open>_ba.log\<close>, the wrapped stream) and every use of the lock and of the buffer is
  written, in program order, to a list of events that the method returns beside the
  new object state.
\<close>

subsection \<open>Strings\<close>

text \<open>
  Python's \<open>str\<close> is modelled by \<open>string\<close>. The only character the code looks at is
  the newline, which is one \<open>char\<close> in both.
\<close>

abbreviation nl :: char where
  "nl \<equiv> CHR 0x0A"

text \<open>\<open>s.endswith(suf)\<close>\<close>

definition endswith :: "string \<Rightarrow> string \<Rightarrow> bool" where
  "endswith s suf \<longleftrightarrow>
     length suf \<le> length s \<and> drop (length s - length suf) s = suf"

text \<open>\<open>''.join(bits)\<close>\<close>

definition join :: "string list \<Rightarrow> string" where
  "join bits = concat bits"

text \<open>\<open>line[:-1]\<close>\<close>

definition drop_last :: "string \<Rightarrow> string" where
  "drop_last line = take (length line - 1) line"

subsection \<open>Objects and events\<close>

text \<open>The two echo functions \<open>_ba.print_stdout\<close> and \<open>_ba.print_stderr\<close>.\<close>

datatype callback = Print_stdout | Print_stderr

text \<open>
  The wrapped stream is a collaborator. Of it the class uses \<open>flush()\<close> and
  \<open>isatty()\<close> only; \<open>tty\<close> is what its \<open>isatty()\<close> answers.
\<close>

record textio =
  fileno :: nat
  tty :: bool

datatype event =
    Call callback string   \<comment> \<open>\<open>self._call(sval)\<close>\<close>
  | Acquire                \<comment> \<open>entering \<open>with self._lock\<close>\<close>
  | Append string          \<comment> \<open>\<open>self._linebits.append(sval)\<close>\<close>
  | Join                   \<comment> \<open>\<open>''.join(self._linebits)\<close>\<close>
  | Reset                  \<comment> \<open>\<open>self._linebits = []\<close>\<close>
  | Release                \<comment> \<open>leaving the \<open>with\<close> block, also by \<open>return\<close>\<close>
  | Shiplog                \<comment> \<open>\<open>self._shiplog\<close> is entered\<close>
  | Pushcall bool bool     \<comment> \<open>\<open>_ba.pushcall(self._shiplog, from_other_thread, suppress_other_thread_warning)\<close>\<close>
  | Log string bool        \<comment> \<open>\<open>_ba.log(line, to_stdout)\<close>\<close>
  | Flush textio           \<comment> \<open>\<open>self._original.flush()\<close>\<close>
  | Isatty textio          \<comment> \<open>\<open>self._original.isatty()\<close>\<close>

text \<open>
  The fields of \<open>_BAConsoleRedirect\<close>. The lock has no value that a sequential run
  can see: its use is recorded by the events \<open>Acquire\<close> and \<open>Release\<close>.
\<close>

record redirect =
  linebits :: "string list"
  original :: textio
  call :: callback
  pending_ship :: bool

subsection \<open>The methods\<close>

definition init :: "textio \<Rightarrow> callback \<Rightarrow> redirect" where
  "init orig c =
     \<lparr>linebits = [], original = orig, call = c, pending_ship = False\<rparr>"

definition shiplog :: "redirect \<Rightarrow> redirect \<times> event list" where
  "shiplog self =
     (let line = join (linebits self) in
      if line = [] then (self, [Shiplog, Acquire, Join, Release])
      else
        (let self' = self\<lparr>linebits := []\<rparr>;
             line' = (if endswith line [nl] then drop_last line else line)
         in (self', [Shiplog, Acquire, Join, Reset, Release, Log line' False])))"

definition write_redirect :: "redirect \<Rightarrow> string \<Rightarrow> redirect \<times> event list" where
  "write_redirect self sval =
     (let es = [Call (call self) sval, Acquire, Append sval, Release];
          self' = self\<lparr>linebits := linebits self @ [sval]\<rparr>
      in if endswith sval [nl]
         then (let (self'', es') = shiplog self' in (self'', es @ es'))
         else (self', es @ [Pushcall True True]))"

definition flush :: "redirect \<Rightarrow> redirect \<times> event list" where
  "flush self = (self, [Flush (original self)])"

definition isatty :: "redirect \<Rightarrow> bool \<times> redirect \<times> event list" where
  "isatty self = (tty (original self), self, [Isatty (original self)])"

subsection \<open>Runs of one object\<close>

text \<open>
  What can happen to an object: a caller uses one of its three public methods, or
  the scheduler of \<open>_ba.pushcall\<close> runs a pushed \<open>self._shiplog\<close>.
\<close>

datatype op = Write string | Fire | Do_flush | Do_isatty

fun step :: "redirect \<Rightarrow> op \<Rightarrow> redirect \<times> event list" where
  "step self (Write sval) = write_redirect self sval"
| "step self Fire = shiplog self"
| "step self Do_flush = flush self"
| "step self Do_isatty = snd (isatty self)"

fun run :: "redirect \<Rightarrow> op list \<Rightarrow> redirect \<times> event list" where
  "run self [] = (self, [])"
| "run self (x # xs) =
     (let (self', es) = step self x; (self'', es') = run self' xs
      in (self'', es @ es'))"

text \<open>The texts written by a list of operations.\<close>

fun written :: "op list \<Rightarrow> string list" where
  "written [] = []"
| "written (Write sval # xs) = sval # written xs"
| "written (_ # xs) = written xs"

subsection \<open>Reading a list of events\<close>

fun log_of :: "event \<Rightarrow> (string \<times> bool) list" where
  "log_of (Log line to_stdout) = [(line, to_stdout)]"
| "log_of _ = []"

fun pushcall_of :: "event \<Rightarrow> (bool \<times> bool) list" where
  "pushcall_of (Pushcall from_other_thread suppress) = [(from_other_thread, suppress)]"
| "pushcall_of _ = []"

fun echo_of :: "event \<Rightarrow> (callback \<times> string) list" where
  "echo_of (Call c sval) = [(c, sval)]"
| "echo_of _ = []"

text \<open>The arguments of the calls of \<open>_ba.log\<close>, of \<open>_ba.pushcall\<close> and of the echo
  callback, and the number of times \<open>_shiplog\<close> was entered.\<close>

definition log_calls :: "event list \<Rightarrow> (string \<times> bool) list" where
  "log_calls es = concat (map log_of es)"

definition pushcalls :: "event list \<Rightarrow> (bool \<times> bool) list" where
  "pushcalls es = concat (map pushcall_of es)"

definition echoes :: "event list \<Rightarrow> (callback \<times> string) list" where
  "echoes es = concat (map echo_of es)"

definition ships :: "event list \<Rightarrow> nat" where
  "ships es = count_list es Shiplog"

text \<open>
  The lock discipline. \<open>lock_after held es\<close> follows the lock through the events:
  the buffer is touched only while the lock is held, every call that leaves the
  object (and the entry of \<open>_shiplog\<close>) happens while it is free, and the lock is
  neither taken twice nor released when free. The result is \<open>None\<close> when an event
  breaks the discipline and the final state of the lock otherwise.
\<close>

fun lock_event :: "bool \<Rightarrow> event \<Rightarrow> bool option" where
  "lock_event held Acquire = (if held then None else Some True)"
| "lock_event held Release = (if held then Some False else None)"
| "lock_event held (Append _) = (if held then Some held else None)"
| "lock_event held Join = (if held then Some held else None)"
| "lock_event held Reset = (if held then Some held else None)"
| "lock_event held _ = (if held then None else Some held)"

fun lock_after :: "bool \<Rightarrow> event list \<Rightarrow> bool option" where
  "lock_after held [] = Some held"
| "lock_after held (e # es) =
     (case lock_event held e of None \<Rightarrow> None | Some held' \<Rightarrow> lock_after held' es)"

definition disciplined :: "event list \<Rightarrow> bool" where
  "disciplined es \<longleftrightarrow> lock_after False es = Some False"

subsection \<open>The two objects of the bootstrap\<close>

datatype stream = Stdout | Stderr

record world =
  sys_stdout :: redirect
  sys_stderr :: redirect

text \<open>
  \<open>sys.stdout = _BAConsoleRedirect(sys.stdout, _ba.print_stdout)\<close> and the same for
  \<open>sys.stderr\<close>; \<open>out\<close> and \<open>err\<close> are the two streams found at start.
\<close>

definition bootstrap :: "textio \<Rightarrow> textio \<Rightarrow> world" where
  "bootstrap out err =
     \<lparr>sys_stdout = init out Print_stdout, sys_stderr = init err Print_stderr\<rparr>"

fun wstep :: "world \<Rightarrow> stream \<times> op \<Rightarrow> world \<times> event list" where
  "wstep w (Stdout, x) =
     (let (self', es) = step (sys_stdout w) x in (w\<lparr>sys_stdout := self'\<rparr>, es))"
| "wstep w (Stderr, x) =
     (let (self', es) = step (sys_stderr w) x in (w\<lparr>sys_stderr := self'\<rparr>, es))"

fun wrun :: "world \<Rightarrow> (stream \<times> op) list \<Rightarrow> world \<times> event list" where
  "wrun w [] = (w, [])"
| "wrun w (x # xs) =
     (let (w', es) = wstep w x; (w'', es') = wrun w' xs in (w'', es @ es'))"

fun other :: "stream \<Rightarrow> stream" where
  "other Stdout = Stderr"
| "other Stderr = Stdout"

section \<open>Basic facts\<close>

lemma endswith_nl: "endswith s [nl] \<longleftrightarrow> s \<noteq> [] \<and> last s = nl"
proof (cases s rule: rev_cases)
  case Nil
  then show ?thesis by (simp add: endswith_def)
next
  case (snoc ys y)
  then show ?thesis by (simp add: endswith_def)
qed

lemma drop_last_butlast: "drop_last s = butlast s"
  by (simp add: drop_last_def butlast_conv_take)

lemma drop_last_snoc: "drop_last (s @ [c]) = s"
  by (simp add: drop_last_def)

lemma log_calls_append: "log_calls (es @ fs) = log_calls es @ log_calls fs"
  by (simp add: log_calls_def)

lemma pushcalls_append: "pushcalls (es @ fs) = pushcalls es @ pushcalls fs"
  by (simp add: pushcalls_def)

lemma echoes_append: "echoes (es @ fs) = echoes es @ echoes fs"
  by (simp add: echoes_def)

lemma ships_append: "ships (es @ fs) = ships es + ships fs"
  by (induction es) (simp_all add: ships_def)

lemma lock_after_append:
  "lock_after held (es @ fs) =
     (case lock_after held es of None \<Rightarrow> None | Some held' \<Rightarrow> lock_after held' fs)"
  by (induction es arbitrary: held) (simp_all split: option.splits)

lemma disciplined_append:
  "disciplined es \<Longrightarrow> disciplined fs \<Longrightarrow> disciplined (es @ fs)"
  by (simp add: disciplined_def lock_after_append)

lemma run_append:
  "run self (xs @ ys) =
     (let (self', es) = run self xs; (self'', es') = run self' ys
      in (self'', es @ es'))"
  by (induction xs arbitrary: self) (simp_all split: prod.splits)

text \<open>The two results of \<open>_shiplog\<close>, by the joined buffer.\<close>

lemma shiplog_nothing:
  "join (linebits self) = [] \<Longrightarrow>
     shiplog self = (self, [Shiplog, Acquire, Join, Release])"
  by (simp add: shiplog_def)

lemma shiplog_something:
  "join (linebits self) \<noteq> [] \<Longrightarrow>
     shiplog self =
       (self\<lparr>linebits := []\<rparr>,
        [Shiplog, Acquire, Join, Reset, Release,
         Log (if endswith (join (linebits self)) [nl]
              then drop_last (join (linebits self)) else join (linebits self)) False])"
  by (simp add: shiplog_def Let_def)

lemma disciplined_shiplog: "disciplined (snd (shiplog self))"
  by (cases "join (linebits self) = []")
     (simp_all add: shiplog_nothing shiplog_something disciplined_def)

lemma disciplined_write: "disciplined (snd (write_redirect self sval))"
  by (cases "join (linebits self @ [sval]) = []")
     (simp_all add: write_redirect_def shiplog_nothing shiplog_something
        disciplined_def Let_def)

lemma disciplined_step: "disciplined (snd (step self x))"
  by (cases x)
     (simp_all add: disciplined_shiplog disciplined_write,
      simp_all add: flush_def isatty_def disciplined_def)

lemma disciplined_run: "disciplined (snd (run self xs))"
proof (induction xs arbitrary: self)
  case Nil
  show ?case by (simp add: disciplined_def)
next
  case (Cons x xs)
  have "disciplined (snd (step self x) @ snd (run (fst (step self x)) xs))"
    by (rule disciplined_append [OF disciplined_step Cons.IH])
  then show ?case by (simp add: split_beta)
qed

text \<open>
  Writes of fragments that do not end in a newline only collect: each one echoes,
  appends under the lock and pushes a call of \<open>_shiplog\<close>.
\<close>

lemma run_partial_writes:
  "\<forall>w\<in>set ws. \<not> endswith w [nl] \<Longrightarrow>
     run self (map Write ws) =
       (self\<lparr>linebits := linebits self @ ws\<rparr>,
        concat (map (\<lambda>w. [Call (call self) w, Acquire, Append w, Release,
                          Pushcall True True]) ws))"
  by (induction ws arbitrary: self) (simp_all add: write_redirect_def)

lemma partial_events_ships:
  "ships (concat (map (\<lambda>w. [Call c w, Acquire, Append w, Release,
                           Pushcall True True]) ws)) = 0"
  by (induction ws) (simp_all add: ships_def)

lemma partial_events_log_calls:
  "log_calls (concat (map (\<lambda>w. [Call c w, Acquire, Append w, Release,
                               Pushcall True True]) ws)) = []"
  by (induction ws) (simp_all add: log_calls_def)

lemma partial_events_pushcalls:
  "pushcalls (concat (map (\<lambda>w. [Call c w, Acquire, Append w, Release,
                               Pushcall True True]) ws))
     = replicate (length ws) (True, True)"
  by (induction ws) (simp_all add: pushcalls_def)

section \<open>Coalescing of one print statement\<close>

text \<open>
  C1. Start from an object whose buffer joins to the empty string (a new object, or
  one that has just shipped). Let the fragments \<open>ws\<close> be written one after the other
  with no pushed call running in between, the last fragment ending in a newline and
  no earlier one. Then \<open>_shiplog\<close> is entered exactly once, \<open>_ba.log\<close> is called
  exactly once, and its line is the concatenation of all the fragments without its
  final character, which is the newline. The buffer is empty afterwards.
\<close>

theorem write_sequence_one_record:
  assumes start: "join (linebits self) = []"
    and nonempty: "ws \<noteq> []"
    and partial: "\<forall>w\<in>set (butlast ws). \<not> endswith w [nl]"
    and complete: "endswith (last ws) [nl]"
  shows "ships (snd (run self (map Write ws))) = 1 \<and>
         log_calls (snd (run self (map Write ws))) = [(drop_last (concat ws), False)] \<and>
         drop_last (concat ws) @ [nl] = concat ws \<and>
         linebits (fst (run self (map Write ws))) = []"
proof -
  define us where "us = butlast ws"
  define u where "u = last ws"
  define mid where "mid = self\<lparr>linebits := linebits self @ us\<rparr>"
  define es where
    "es = concat (map (\<lambda>w. [Call (call self) w, Acquire, Append w, Release,
                             Pushcall True True]) us)"
  have ws: "ws = us @ [u]"
    using nonempty by (simp add: us_def u_def)
  have u: "u \<noteq> []" "last u = nl"
    using complete by (simp_all add: u_def endswith_nl)
  have first: "run self (map Write us) = (mid, es)"
    using partial by (simp add: run_partial_writes us_def mid_def es_def)
  have all: "concat ws = concat us @ u"
    by (simp add: ws)
  have line: "join (linebits mid @ [u]) = concat ws"
    using start by (simp add: mid_def join_def all)
  have ends: "endswith (concat ws) [nl]"
    using u by (simp add: endswith_nl all)
  have "join (linebits (mid\<lparr>linebits := linebits mid @ [u]\<rparr>)) \<noteq> []"
    using u line all by simp
  then have ship:
    "shiplog (mid\<lparr>linebits := linebits mid @ [u]\<rparr>) =
       (mid\<lparr>linebits := []\<rparr>,
        [Shiplog, Acquire, Join, Reset, Release, Log (drop_last (concat ws)) False])"
    using line ends by (simp add: shiplog_something)
  have final:
    "write_redirect mid u =
       (mid\<lparr>linebits := []\<rparr>,
        [Call (call mid) u, Acquire, Append u, Release,
         Shiplog, Acquire, Join, Reset, Release, Log (drop_last (concat ws)) False])"
    using complete ship by (simp add: write_redirect_def u_def)
  have whole:
    "run self (map Write ws) =
       (mid\<lparr>linebits := []\<rparr>,
        es @ [Call (call mid) u, Acquire, Append u, Release,
              Shiplog, Acquire, Join, Reset, Release, Log (drop_last (concat ws)) False])"
    by (simp add: ws run_append first final)
  have stripped: "drop_last (concat ws) @ [nl] = concat ws"
    using u ends by (simp add: drop_last_butlast all butlast_append)
       (metis append_butlast_last_id)
  have "ships (snd (run self (map Write ws))) = 1"
    by (simp add: whole ships_append partial_events_ships es_def) (simp add: ships_def)
  moreover have "log_calls (snd (run self (map Write ws))) = [(drop_last (concat ws), False)]"
    by (simp add: whole log_calls_append partial_events_log_calls es_def)
       (simp add: log_calls_def)
  moreover have "linebits (fst (run self (map Write ws))) = []"
    by (simp add: whole)
  ultimately show ?thesis
    using stripped by simp
qed

text \<open>Scenario A of the specification: \<open>write("a"); write("b\n")\<close> gives the one record \<open>ab\<close>.\<close>

theorem write_sequence_one_record_witness:
  "join (linebits (init \<lparr>fileno = 1, tty = True\<rparr> Print_stdout)) = [] \<and>
   [''a'', ''b'' @ [nl]] \<noteq> [] \<and>
   butlast [''a'', ''b'' @ [nl]] = [''a''] \<and> \<not> endswith ''a'' [nl] \<and>
   endswith (last [''a'', ''b'' @ [nl]]) [nl] \<and>
   ships (snd (run (init \<lparr>fileno = 1, tty = True\<rparr> Print_stdout)
                   (map Write [''a'', ''b'' @ [nl]]))) = 1 \<and>
   log_calls (snd (run (init \<lparr>fileno = 1, tty = True\<rparr> Print_stdout)
                       (map Write [''a'', ''b'' @ [nl]]))) = [(''ab'', False)]"
proof -
  have h1: "join (linebits (init \<lparr>fileno = 1, tty = True\<rparr> Print_stdout)) = []"
    by (simp add: init_def join_def)
  have h2: "[''a'', ''b'' @ [nl]] \<noteq> []"
    by simp
  have h3: "\<forall>w\<in>set (butlast [''a'', ''b'' @ [nl]]). \<not> endswith w [nl]"
    by (simp add: endswith_def)
  have h4: "endswith (last [''a'', ''b'' @ [nl]]) [nl]"
    by (simp add: endswith_def)
  show ?thesis
    using h1 h2 h3 h4 write_sequence_one_record [OF h1 h2 h3 h4]
    by (simp add: drop_last_def)
qed

section \<open>What one write does\<close>

text \<open>
  C3. For every object and every text, \<open>write\<close> enters \<open>_shiplog\<close> itself exactly
  when the text ends in a newline, and it then makes no call of \<open>_ba.pushcall\<close>.
  When the text does not end in a newline, \<open>_shiplog\<close> is not entered and
  \<open>_ba.pushcall\<close> is called exactly once, with \<open>from_other_thread=True\<close> and
  \<open>suppress_other_thread_warning=True\<close>.
\<close>

theorem write_ships_iff_newline:
  "(Shiplog \<in> set (snd (write_redirect self text)) \<longleftrightarrow> endswith text [nl]) \<and>
   ships (snd (write_redirect self text)) = (if endswith text [nl] then 1 else 0) \<and>
   pushcalls (snd (write_redirect self text)) =
     (if endswith text [nl] then [] else [(True, True)])"
proof (cases "endswith text [nl]")
  case True
  then have "join (linebits self @ [text]) \<noteq> []"
    by (simp add: endswith_nl join_def)
  then have
    "snd (write_redirect self text) =
       [Call (call self) text, Acquire, Append text, Release] @
       [Shiplog, Acquire, Join, Reset, Release,
        Log (if endswith (join (linebits self @ [text])) [nl]
             then drop_last (join (linebits self @ [text]))
             else join (linebits self @ [text])) False]"
    using True by (simp add: write_redirect_def shiplog_something)
  then show ?thesis
    using True by (simp add: ships_def pushcalls_def)
next
  case False
  then have
    "snd (write_redirect self text) =
       [Call (call self) text, Acquire, Append text, Release, Pushcall True True]"
    by (simp add: write_redirect_def)
  then show ?thesis
    using False by (simp add: ships_def pushcalls_def)
qed

text \<open>
  Scenario B (\<open>write("x\n")\<close> ships at once, the scheduler is not used) and
  scenario C (\<open>write("partial")\<close> pushes one call and ships nothing).
\<close>

theorem write_ships_iff_newline_witness:
  "endswith (''x'' @ [nl]) [nl] \<and>
   ships (snd (write_redirect (init \<lparr>fileno = 1, tty = True\<rparr> Print_stdout)
                 (''x'' @ [nl]))) = 1 \<and>
   pushcalls (snd (write_redirect (init \<lparr>fileno = 1, tty = True\<rparr> Print_stdout)
                     (''x'' @ [nl]))) = [] \<and>
   \<not> endswith ''partial'' [nl] \<and>
   ships (snd (write_redirect (init \<lparr>fileno = 1, tty = True\<rparr> Print_stdout)
                 ''partial'')) = 0 \<and>
   pushcalls (snd (write_redirect (init \<lparr>fileno = 1, tty = True\<rparr> Print_stdout)
                     ''partial'')) = [(True, True)]"
  using
    write_ships_iff_newline [of "init \<lparr>fileno = 1, tty = True\<rparr> Print_stdout" "''x'' @ [nl]"]
    write_ships_iff_newline [of "init \<lparr>fileno = 1, tty = True\<rparr> Print_stdout" "''partial''"]
  by (simp add: endswith_def)

text \<open>
  C4. For every object and every text, the first thing \<open>write\<close> does is to call the
  object's callback with the text as it was given; this is the only call of the
  callback. Being first, it comes before the lock is taken, before the fragment is
  appended and before any entry of \<open>_shiplog\<close>, and by the lock discipline it happens
  while the lock is free. Nothing in the statement depends on what is logged.
\<close>

theorem write_echoes_once_first:
  "take 1 (snd (write_redirect self text)) = [Call (call self) text] \<and>
   echoes (snd (write_redirect self text)) = [(call self, text)] \<and>
   disciplined (snd (write_redirect self text)) \<and>
   call (fst (write_redirect self text)) = call self"
proof (cases "join (linebits self @ [text]) = []")
  case True
  then have
    "endswith text [nl] \<Longrightarrow>
       write_redirect self text =
         (self\<lparr>linebits := linebits self @ [text]\<rparr>,
          [Call (call self) text, Acquire, Append text, Release,
           Shiplog, Acquire, Join, Release])"
    by (simp add: write_redirect_def shiplog_nothing)
  moreover have
    "\<not> endswith text [nl] \<Longrightarrow>
       write_redirect self text =
         (self\<lparr>linebits := linebits self @ [text]\<rparr>,
          [Call (call self) text, Acquire, Append text, Release, Pushcall True True])"
    by (simp add: write_redirect_def)
  ultimately show ?thesis
    using disciplined_write [of self "text"]
    by (cases "endswith text [nl]") (simp_all add: echoes_def)
next
  case False
  then have
    "endswith text [nl] \<Longrightarrow>
       write_redirect self text =
         (self\<lparr>linebits := []\<rparr>,
          [Call (call self) text, Acquire, Append text, Release,
           Shiplog, Acquire, Join, Reset, Release,
           Log (if endswith (join (linebits self @ [text])) [nl]
                then drop_last (join (linebits self @ [text]))
                else join (linebits self @ [text])) False])"
    by (simp add: write_redirect_def shiplog_something)
  moreover have
    "\<not> endswith text [nl] \<Longrightarrow>
       write_redirect self text =
         (self\<lparr>linebits := linebits self @ [text]\<rparr>,
          [Call (call self) text, Acquire, Append text, Release, Pushcall True True])"
    by (simp add: write_redirect_def)
  ultimately show ?thesis
    using disciplined_write [of self "text"]
    by (cases "endswith text [nl]") (simp_all add: echoes_def)
qed

theorem write_echoes_once_first_witness:
  "echoes (snd (write_redirect (init \<lparr>fileno = 2, tty = False\<rparr> Print_stderr) ''partial''))
     = [(Print_stderr, ''partial'')] \<and>
   echoes (snd (write_redirect (init \<lparr>fileno = 2, tty = False\<rparr> Print_stderr) []))
     = [(Print_stderr, [])] \<and>
   take 1 (snd (write_redirect (init \<lparr>fileno = 2, tty = False\<rparr> Print_stderr) (''x'' @ [nl])))
     = [Call Print_stderr (''x'' @ [nl])]"
  using
    write_echoes_once_first [of "init \<lparr>fileno = 2, tty = False\<rparr> Print_stderr" "''partial''"]
    write_echoes_once_first [of "init \<lparr>fileno = 2, tty = False\<rparr> Print_stderr" "[]"]
    write_echoes_once_first [of "init \<lparr>fileno = 2, tty = False\<rparr> Print_stderr" "''x'' @ [nl]"]
  by (simp add: init_def)

section \<open>What one ship does\<close>

lemma endswith_iff: "endswith s suf \<longleftrightarrow> (\<exists>t. s = t @ suf)"
proof
  assume "endswith s suf"
  then have "s = take (length s - length suf) s @ suf"
    by (simp add: endswith_def) (metis append_take_drop_id)
  then show "\<exists>t. s = t @ suf" ..
next
  assume "\<exists>t. s = t @ suf"
  then show "endswith s suf"
    by (auto simp: endswith_def)
qed

lemma endswith_two_newlines:
  "endswith (t @ [nl]) [nl, nl] \<longleftrightarrow> endswith t [nl]"
proof -
  have "(\<exists>u. t @ [nl] = u @ [nl, nl]) \<longleftrightarrow> (\<exists>u. t = u @ [nl])"
  proof
    assume "\<exists>u. t @ [nl] = u @ [nl, nl]"
    then obtain u where "t @ [nl] = (u @ [nl]) @ [nl]" by auto
    then have "t = u @ [nl]" by (simp only: append1_eq_conv)
    then show "\<exists>u. t = u @ [nl]" ..
  next
    assume "\<exists>u. t = u @ [nl]"
    then show "\<exists>u. t @ [nl] = u @ [nl, nl]" by auto
  qed
  then show ?thesis by (simp only: endswith_iff)
qed

lemma endswith_two_newlines_one:
  "endswith s [nl, nl] \<Longrightarrow> endswith s [nl]"
  by (auto simp: endswith_iff)

text \<open>
  C5, as the code has it. \<open>_shiplog\<close> joins the fragments. When the joined string
  is empty nothing is logged. Otherwise exactly one record is logged: the joined
  string without its last character when that character is a newline (so that
  putting the newline back gives the joined string), and the joined string itself
  otherwise. Only one newline is removed: the record ends in a newline exactly when
  the joined string ends in two newlines.
\<close>

theorem shiplog_strips_one_newline:
  "join (linebits self) = concat (linebits self) \<and>
   log_calls (snd (shiplog self)) =
     (if join (linebits self) = [] then []
      else if endswith (join (linebits self)) [nl]
           then [(drop_last (join (linebits self)), False)]
           else [(join (linebits self), False)]) \<and>
   (endswith (join (linebits self)) [nl] \<longrightarrow>
      drop_last (join (linebits self)) @ [nl] = join (linebits self)) \<and>
   (\<forall>record \<in> set (log_calls (snd (shiplog self))).
      endswith (fst record) [nl] \<longleftrightarrow> endswith (join (linebits self)) [nl, nl])"
proof -
  define line where "line = join (linebits self)"
  have logged:
    "log_calls (snd (shiplog self)) =
       (if line = [] then []
        else if endswith line [nl] then [(drop_last line, False)] else [(line, False)])"
    by (cases "line = []")
       (simp_all add: line_def shiplog_nothing shiplog_something log_calls_def)
  have restore: "endswith line [nl] \<longrightarrow> drop_last line @ [nl] = line"
    by (auto simp: endswith_iff drop_last_snoc)
  have ends:
    "\<forall>record \<in> set (log_calls (snd (shiplog self))).
       endswith (fst record) [nl] \<longleftrightarrow> endswith line [nl, nl]"
  proof (cases "endswith line [nl]")
    case True
    then obtain t where t: "line = t @ [nl]"
      by (auto simp: endswith_iff)
    have "endswith (t @ [nl]) [nl]"
      by (simp add: endswith_nl)
    then show ?thesis
      by (simp add: logged t drop_last_snoc endswith_two_newlines)
  next
    case False
    then have "\<not> endswith line [nl, nl]"
      using endswith_two_newlines_one by blast
    then show ?thesis
      using False by (simp add: logged)
  qed
  show ?thesis
    using logged restore ends by (simp add: line_def join_def)
qed

theorem shiplog_strips_one_newline_witness:
  "endswith (join [''foo'', ''bar'' @ [nl]]) [nl] \<and>
   log_calls (snd (shiplog \<lparr>linebits = [''foo'', ''bar'' @ [nl]],
                            original = \<lparr>fileno = 1, tty = True\<rparr>,
                            call = Print_stdout, pending_ship = False\<rparr>))
     = [(''foobar'', False)] \<and>
   \<not> endswith ''foobar'' [nl]"
  using shiplog_strips_one_newline
    [of "\<lparr>linebits = [''foo'', ''bar'' @ [nl]], original = \<lparr>fileno = 1, tty = True\<rparr>,
          call = Print_stdout, pending_ship = False\<rparr>"]
  by (simp add: join_def endswith_def drop_last_def)

text \<open>
  The claim C5 as it is written says that no record ends in a newline. The write
  of \<open>a\<close> followed by two newlines to a new object logs \<open>a\<close> followed by one newline.
\<close>

theorem shiplog_record_newline_counterexample:
  "log_calls (snd (write_redirect (init \<lparr>fileno = 1, tty = True\<rparr> Print_stdout)
                     (''a'' @ [nl, nl])))
     = [(''a'' @ [nl], False)] \<and>
   endswith (''a'' @ [nl]) [nl]"
  by (simp add: write_redirect_def shiplog_def init_def join_def endswith_def
        drop_last_def log_calls_def)

text \<open>
  C6, as the code has it. \<open>_shiplog\<close> reads the whole buffer and, when the joined
  string is not empty, replaces the buffer by the empty list; both happen in one
  stretch during which the lock is held, and the lock is free again before
  \<open>_ba.log\<close> is called. When the joined string is empty (no fragment, or empty
  fragments only) the method returns from inside that stretch and the buffer stays
  as it was. So the buffer afterwards is either the empty list or the unchanged
  buffer, never a part of it; it joins to the empty string in both cases; and the
  other fields are unchanged.
\<close>

theorem shiplog_takes_whole_buffer:
  "linebits (fst (shiplog self)) = (if join (linebits self) = [] then linebits self else []) \<and>
   join (linebits (fst (shiplog self))) = [] \<and>
   takeWhile (\<lambda>e. e \<noteq> Release) (snd (shiplog self)) =
     [Shiplog, Acquire, Join] @ (if join (linebits self) = [] then [] else [Reset]) \<and>
   disciplined (snd (shiplog self)) \<and>
   fst (shiplog self) = self\<lparr>linebits := linebits (fst (shiplog self))\<rparr>"
proof (cases "join (linebits self) = []")
  case True
  then show ?thesis
    using disciplined_shiplog [of self] by (simp add: shiplog_nothing)
next
  case False
  then show ?thesis
    using disciplined_shiplog [of self] by (simp add: shiplog_something) (simp add: join_def)
qed

theorem shiplog_takes_whole_buffer_witness:
  "join [''foo'', ''bar''] \<noteq> [] \<and>
   linebits (fst (shiplog \<lparr>linebits = [''foo'', ''bar''],
                           original = \<lparr>fileno = 1, tty = True\<rparr>,
                           call = Print_stdout, pending_ship = False\<rparr>)) = [] \<and>
   join [[], []] = [] \<and>
   linebits (fst (shiplog \<lparr>linebits = [[], []],
                           original = \<lparr>fileno = 1, tty = True\<rparr>,
                           call = Print_stdout, pending_ship = False\<rparr>)) = [[], []]"
  using
    shiplog_takes_whole_buffer
      [of "\<lparr>linebits = [''foo'', ''bar''], original = \<lparr>fileno = 1, tty = True\<rparr>,
            call = Print_stdout, pending_ship = False\<rparr>"]
    shiplog_takes_whole_buffer
      [of "\<lparr>linebits = [[], []], original = \<lparr>fileno = 1, tty = True\<rparr>,
            call = Print_stdout, pending_ship = False\<rparr>"]
  by (simp add: join_def)

text \<open>
  The claim C6 as it is written says that the buffer is empty after every ship.
  After \<open>write("")\<close> on a new object, the pushed \<open>_shiplog\<close> finds a buffer that
  holds one empty fragment, returns early and leaves that fragment in the buffer.
\<close>

theorem shiplog_buffer_not_emptied_counterexample:
  "linebits (fst (run (init \<lparr>fileno = 1, tty = True\<rparr> Print_stdout) [Write [], Fire]))
     = [[]] \<and>
   linebits (fst (run (init \<lparr>fileno = 1, tty = True\<rparr> Print_stdout) [Write [], Fire]))
     \<noteq> []"
  by (simp add: write_redirect_def shiplog_def init_def join_def endswith_def)

text \<open>
  C7. On an empty buffer \<open>_shiplog\<close> logs nothing, calls no collaborator and returns
  the object as it was: all it does is take the lock, read the buffer and release
  the lock. For every object, a second \<open>_shiplog\<close> right after a first one finds
  nothing to ship, so two in a row leave the same object and the same records as one.
\<close>

theorem shiplog_empty_idempotent:
  "(linebits self = [] \<longrightarrow>
      shiplog self = (self, [Shiplog, Acquire, Join, Release]) \<and>
      log_calls (snd (shiplog self)) = []) \<and>
   snd (shiplog (fst (shiplog self))) = [Shiplog, Acquire, Join, Release] \<and>
   fst (run self [Fire, Fire]) = fst (run self [Fire]) \<and>
   log_calls (snd (run self [Fire, Fire])) = log_calls (snd (run self [Fire]))"
proof -
  have empty: "linebits self = [] \<longrightarrow>
      shiplog self = (self, [Shiplog, Acquire, Join, Release]) \<and>
      log_calls (snd (shiplog self)) = []"
    by (simp add: shiplog_nothing join_def log_calls_def)
  have "join (linebits (fst (shiplog self))) = []"
    by (cases "join (linebits self) = []")
       (simp_all add: shiplog_nothing shiplog_something, simp add: join_def)
  then have again:
    "shiplog (fst (shiplog self)) = (fst (shiplog self), [Shiplog, Acquire, Join, Release])"
    by (rule shiplog_nothing)
  have twice:
    "run self [Fire, Fire] =
       (fst (shiplog self), snd (shiplog self) @ [Shiplog, Acquire, Join, Release])"
    by (simp add: split_beta again)
  have once: "run self [Fire] = shiplog self"
    by (simp add: split_beta)
  show ?thesis
    using empty by (simp only: twice once again) (simp add: log_calls_def)
qed

theorem shiplog_empty_idempotent_witness:
  "linebits (init \<lparr>fileno = 1, tty = True\<rparr> Print_stdout) = [] \<and>
   shiplog (init \<lparr>fileno = 1, tty = True\<rparr> Print_stdout) =
     (init \<lparr>fileno = 1, tty = True\<rparr> Print_stdout, [Shiplog, Acquire, Join, Release]) \<and>
   log_calls (snd (shiplog (init \<lparr>fileno = 1, tty = True\<rparr> Print_stdout))) = []"
  using shiplog_empty_idempotent [of "init \<lparr>fileno = 1, tty = True\<rparr> Print_stdout"]
  by (simp add: init_def log_calls_def)

section \<open>The two objects and the log\<close>

text \<open>What is logged, and the buffer left behind, depend on the buffer only.\<close>

lemma shiplog_by_linebits:
  "linebits self = linebits self' \<Longrightarrow>
     log_calls (snd (shiplog self)) = log_calls (snd (shiplog self')) \<and>
     linebits (fst (shiplog self)) = linebits (fst (shiplog self'))"
  by (simp add: shiplog_def Let_def log_calls_def)

lemma write_complete:
  "endswith sval [nl] \<Longrightarrow>
     write_redirect self sval =
       (fst (shiplog (self\<lparr>linebits := linebits self @ [sval]\<rparr>)),
        [Call (call self) sval, Acquire, Append sval, Release] @
        snd (shiplog (self\<lparr>linebits := linebits self @ [sval]\<rparr>)))"
  by (simp add: write_redirect_def split_beta Let_def)

lemma write_partial:
  "\<not> endswith sval [nl] \<Longrightarrow>
     write_redirect self sval =
       (self\<lparr>linebits := linebits self @ [sval]\<rparr>,
        [Call (call self) sval, Acquire, Append sval, Release, Pushcall True True])"
  by (simp add: write_redirect_def)

lemma write_by_linebits:
  assumes "linebits self = linebits self'"
  shows "log_calls (snd (write_redirect self sval)) =
           log_calls (snd (write_redirect self' sval)) \<and>
         linebits (fst (write_redirect self sval)) =
           linebits (fst (write_redirect self' sval))"
proof (cases "endswith sval [nl]")
  case True
  have "linebits (self\<lparr>linebits := linebits self @ [sval]\<rparr>) =
        linebits (self'\<lparr>linebits := linebits self' @ [sval]\<rparr>)"
    using assms by simp
  from shiplog_by_linebits [OF this] show ?thesis
    by (simp add: write_complete [OF True] log_calls_append)
       (simp add: log_calls_def)
next
  case False
  show ?thesis
    using assms by (simp add: write_partial [OF False] log_calls_def)
qed

lemma step_by_linebits:
  assumes "linebits self = linebits self'"
  shows "log_calls (snd (step self x)) = log_calls (snd (step self' x)) \<and>
         linebits (fst (step self x)) = linebits (fst (step self' x))"
proof (cases x)
  case (Write sval)
  show ?thesis
    using write_by_linebits [OF assms, of sval] by (simp only: Write step.simps)
next
  case Fire
  show ?thesis
    using shiplog_by_linebits [OF assms] by (simp only: Fire step.simps)
next
  case Do_flush
  show ?thesis
    using assms by (simp add: Do_flush flush_def log_calls_def)
next
  case Do_isatty
  show ?thesis
    using assms by (simp add: Do_isatty isatty_def log_calls_def)
qed

lemma wstep_Stdout:
  "wstep w (Stdout, x) =
     (w\<lparr>sys_stdout := fst (step (sys_stdout w) x)\<rparr>, snd (step (sys_stdout w) x))"
  by (simp add: split_beta)

lemma wstep_Stderr:
  "wstep w (Stderr, x) =
     (w\<lparr>sys_stderr := fst (step (sys_stderr w) x)\<rparr>, snd (step (sys_stderr w) x))"
  by (simp add: split_beta)

lemma wrun_Cons:
  "wrun w (x # xs) =
     (fst (wrun (fst (wstep w x)) xs), snd (wstep w x) @ snd (wrun (fst (wstep w x)) xs))"
  by (simp add: split_beta)

lemma wrun_other_stream:
  "linebits (sys_stdout w) = linebits (sys_stderr w') \<Longrightarrow>
   linebits (sys_stderr w) = linebits (sys_stdout w') \<Longrightarrow>
     log_calls (snd (wrun w xs)) =
     log_calls (snd (wrun w' (map (\<lambda>(s, x). (other s, x)) xs)))"
proof (induction xs arbitrary: w w')
  case Nil
  show ?case by simp
next
  case (Cons sx xs)
  obtain s x where sx: "sx = (s, x)"
    by (cases sx)
  show ?case
  proof (cases s)
    case Stdout
    note one = step_by_linebits [OF Cons.prems(1), of x]
    have two:
      "linebits (sys_stderr (fst (wstep w (Stdout, x)))) =
       linebits (sys_stdout (fst (wstep w' (Stderr, x))))"
      using Cons.prems(2) by (simp only: wstep_Stdout wstep_Stderr) simp
    have three:
      "linebits (sys_stdout (fst (wstep w (Stdout, x)))) =
       linebits (sys_stderr (fst (wstep w' (Stderr, x))))"
      using one by (simp only: wstep_Stdout wstep_Stderr) simp
    have now:
      "log_calls (snd (wstep w (Stdout, x))) = log_calls (snd (wstep w' (Stderr, x)))"
      using one by (simp only: wstep_Stdout wstep_Stderr) simp
    show ?thesis
      using Cons.IH [OF three two] now
      by (simp only: sx Stdout list.map prod.case other.simps wrun_Cons
            log_calls_append snd_conv)
  next
    case Stderr
    note one = step_by_linebits [OF Cons.prems(2), of x]
    have two:
      "linebits (sys_stdout (fst (wstep w (Stderr, x)))) =
       linebits (sys_stderr (fst (wstep w' (Stdout, x))))"
      using Cons.prems(1) by (simp only: wstep_Stdout wstep_Stderr) simp
    have three:
      "linebits (sys_stderr (fst (wstep w (Stderr, x)))) =
       linebits (sys_stdout (fst (wstep w' (Stdout, x))))"
      using one by (simp only: wstep_Stdout wstep_Stderr) simp
    have now:
      "log_calls (snd (wstep w (Stderr, x))) = log_calls (snd (wstep w' (Stdout, x)))"
      using one by (simp only: wstep_Stdout wstep_Stderr) simp
    show ?thesis
      using Cons.IH [OF two three] now
      by (simp only: sx Stderr list.map prod.case other.simps wrun_Cons
            log_calls_append snd_conv)
  qed
qed

text \<open>
  C2, as the code has it. A call of \<open>_ba.log\<close> passes the line and
  \<open>to_stdout=False\<close> and nothing else: no argument says which of the two objects
  made the call. For the two objects of the bootstrap and every interleaving of
  writes, pushed calls, flushes and terminal checks across them, the records that
  reach \<open>_ba.log\<close> stay the same when every operation is sent to the other object
  instead. So a record does not identify the object it came from.
\<close>

theorem log_records_carry_no_stream:
  "log_calls (snd (wrun (bootstrap out err) xs)) =
   log_calls (snd (wrun (bootstrap out err) (map (\<lambda>(s, x). (other s, x)) xs)))"
  by (rule wrun_other_stream) (simp_all add: bootstrap_def init_def)

theorem log_records_carry_no_stream_witness:
  "log_calls (snd (wrun (bootstrap \<lparr>fileno = 1, tty = True\<rparr> \<lparr>fileno = 2, tty = True\<rparr>)
                    [(Stdout, Write ''out''), (Stderr, Write ''err''),
                     (Stdout, Write [nl]), (Stderr, Write [nl])]))
     = [(''out'', False), (''err'', False)] \<and>
   log_calls (snd (wrun (bootstrap \<lparr>fileno = 1, tty = True\<rparr> \<lparr>fileno = 2, tty = True\<rparr>)
                    [(Stderr, Write ''out''), (Stdout, Write ''err''),
                     (Stderr, Write [nl]), (Stdout, Write [nl])]))
     = [(''out'', False), (''err'', False)]"
  using log_records_carry_no_stream
    [of "\<lparr>fileno = 1, tty = True\<rparr>" "\<lparr>fileno = 2, tty = True\<rparr>"
        "[(Stdout, Write ''out''), (Stderr, Write ''err''),
          (Stdout, Write [nl]), (Stderr, Write [nl])]"]
  by (simp add: bootstrap_def init_def write_redirect_def shiplog_def join_def
        endswith_def drop_last_def log_calls_def)

text \<open>
  The claim C2 as it is written says that a record carries a tag for the object
  that produced it. The same line written to \<open>sys.stdout\<close> and to \<open>sys.stderr\<close>
  reaches \<open>_ba.log\<close> as the same record.
\<close>

theorem log_record_same_for_both_counterexample:
  "log_calls (snd (wrun (bootstrap \<lparr>fileno = 1, tty = True\<rparr> \<lparr>fileno = 2, tty = True\<rparr>)
                    [(Stdout, Write (''x'' @ [nl]))]))
     = [(''x'', False)] \<and>
   log_calls (snd (wrun (bootstrap \<lparr>fileno = 1, tty = True\<rparr> \<lparr>fileno = 2, tty = True\<rparr>)
                    [(Stderr, Write (''x'' @ [nl]))]))
     = [(''x'', False)] \<and>
   Stdout \<noteq> Stderr"
  by (simp add: bootstrap_def init_def write_redirect_def shiplog_def join_def
        endswith_def drop_last_def log_calls_def)

section \<open>Flush and terminal check\<close>

text \<open>
  C8. \<open>flush\<close> makes one call, \<open>self._original.flush()\<close>, and \<open>isatty\<close> makes one
  call, \<open>self._original.isatty()\<close>, whose answer it returns. Both leave every
  field of the object as it was; neither takes the lock, touches the buffer, enters
  \<open>_shiplog\<close>, logs or pushes a call; and what they do is the same whatever the
  buffer, the callback and \<open>_pending_ship\<close> hold, so they read none of them.
\<close>

theorem flush_isatty_delegate:
  "fst (flush self) = self \<and>
   snd (flush self) = [Flush (original self)] \<and>
   fst (isatty self) = tty (original self) \<and>
   fst (snd (isatty self)) = self \<and>
   snd (snd (isatty self)) = [Isatty (original self)] \<and>
   snd (flush (self\<lparr>linebits := bits, call := c, pending_ship := p\<rparr>)) = snd (flush self) \<and>
   fst (isatty (self\<lparr>linebits := bits, call := c, pending_ship := p\<rparr>)) = fst (isatty self) \<and>
   snd (snd (isatty (self\<lparr>linebits := bits, call := c, pending_ship := p\<rparr>)))
     = snd (snd (isatty self)) \<and>
   ships (snd (flush self)) = 0 \<and> ships (snd (snd (isatty self))) = 0 \<and>
   log_calls (snd (flush self)) = [] \<and> log_calls (snd (snd (isatty self))) = [] \<and>
   pushcalls (snd (flush self)) = [] \<and> pushcalls (snd (snd (isatty self))) = []"
  by (simp add: flush_def isatty_def ships_def log_calls_def pushcalls_def)

theorem flush_isatty_delegate_witness:
  "flush \<lparr>linebits = [''partial''], original = \<lparr>fileno = 2, tty = False\<rparr>,
          call = Print_stderr, pending_ship = False\<rparr>
     = (\<lparr>linebits = [''partial''], original = \<lparr>fileno = 2, tty = False\<rparr>,
         call = Print_stderr, pending_ship = False\<rparr>,
        [Flush \<lparr>fileno = 2, tty = False\<rparr>]) \<and>
   isatty \<lparr>linebits = [''partial''], original = \<lparr>fileno = 2, tty = False\<rparr>,
           call = Print_stderr, pending_ship = False\<rparr>
     = (False,
        \<lparr>linebits = [''partial''], original = \<lparr>fileno = 2, tty = False\<rparr>,
         call = Print_stderr, pending_ship = False\<rparr>,
        [Isatty \<lparr>fileno = 2, tty = False\<rparr>])"
  using flush_isatty_delegate
    [where self = "\<lparr>linebits = [''partial''], original = \<lparr>fileno = 2, tty = False\<rparr>,
          call = Print_stderr, pending_ship = False\<rparr>"
       and bits = "[]" and c = Print_stdout and p = True]
  by (simp add: prod_eq_iff)

section \<open>Pushed calls and the unused flag\<close>

lemma shiplog_pending_ship:
  "shiplog (self\<lparr>pending_ship := p\<rparr>) =
     (fst (shiplog self)\<lparr>pending_ship := p\<rparr>, snd (shiplog self))"
  by (simp add: shiplog_def Let_def)

lemma write_pending_ship:
  "write_redirect (self\<lparr>pending_ship := p\<rparr>) sval =
     (fst (write_redirect self sval)\<lparr>pending_ship := p\<rparr>, snd (write_redirect self sval))"
proof (cases "endswith sval [nl]")
  case True
  have swap: "self\<lparr>pending_ship := p, linebits := linebits self @ [sval]\<rparr> =
      self\<lparr>linebits := linebits self @ [sval]\<rparr>\<lparr>pending_ship := p\<rparr>"
    by simp
  show ?thesis
    using True
    by (simp add: write_complete swap shiplog_pending_ship del: redirect.update_convs)
next
  case False
  show ?thesis
    by (simp add: write_partial [OF False])
qed

lemma step_pending_ship:
  "step (self\<lparr>pending_ship := p\<rparr>) x =
     (fst (step self x)\<lparr>pending_ship := p\<rparr>, snd (step self x))"
  by (cases x)
     (simp_all add: write_pending_ship shiplog_pending_ship flush_def isatty_def)

lemma run_Cons:
  "run self (x # xs) =
     (fst (run (fst (step self x)) xs), snd (step self x) @ snd (run (fst (step self x)) xs))"
  by (simp add: split_beta)

lemma run_pending_ship:
  "run (self\<lparr>pending_ship := p\<rparr>) xs =
     (fst (run self xs)\<lparr>pending_ship := p\<rparr>, snd (run self xs))"
proof (induction xs arbitrary: self)
  case Nil
  show ?case by simp
next
  case (Cons x xs)
  show ?case
    by (simp only: run_Cons step_pending_ship Cons.IH fst_conv snd_conv)
qed

text \<open>
  C9. A write of a text that does not end in a newline calls \<open>_ba.pushcall\<close> once,
  whatever the state of the object, so a run of \<open>n\<close> such writes with no pushed call
  running in between makes \<open>n\<close> calls of \<open>_ba.pushcall\<close>: the second and later ones
  are made while the earlier ones are still waiting. The field \<open>_pending_ship\<close> is
  \<open>False\<close> in a new object, no run of operations changes it, and a run from an
  object with another value in the field does the same things and ends in the same
  object but for that field: nothing reads it.
\<close>

theorem pushcall_never_deduplicated:
  "(\<not> endswith sval [nl] \<longrightarrow>
      pushcalls (snd (write_redirect self sval)) = [(True, True)]) \<and>
   ((\<forall>w\<in>set ws. \<not> endswith w [nl]) \<longrightarrow>
      pushcalls (snd (run self (map Write ws))) = replicate (length ws) (True, True)) \<and>
   pending_ship (init orig c) = False \<and>
   pending_ship (fst (run self xs)) = pending_ship self \<and>
   run (self\<lparr>pending_ship := p\<rparr>) xs =
     (fst (run self xs)\<lparr>pending_ship := p\<rparr>, snd (run self xs))"
proof -
  have one: "\<not> endswith sval [nl] \<longrightarrow>
      pushcalls (snd (write_redirect self sval)) = [(True, True)]"
    by (simp add: write_partial pushcalls_def)
  have many: "(\<forall>w\<in>set ws. \<not> endswith w [nl]) \<longrightarrow>
      pushcalls (snd (run self (map Write ws))) = replicate (length ws) (True, True)"
    by (simp add: run_partial_writes partial_events_pushcalls)
  have fresh: "pending_ship (init orig c) = False"
    by (simp add: init_def)
  have "self\<lparr>pending_ship := pending_ship self\<rparr> = self"
    by simp
  then have "fst (run self xs) =
      fst (fst (run self xs)\<lparr>pending_ship := pending_ship self\<rparr>, snd (run self xs))"
    using run_pending_ship [of "pending_ship self" self xs] by (simp only:)
  then have "fst (run self xs) = fst (run self xs)\<lparr>pending_ship := pending_ship self\<rparr>"
    by (simp only: fst_conv)
  then have "pending_ship (fst (run self xs)) =
      pending_ship (fst (run self xs)\<lparr>pending_ship := pending_ship self\<rparr>)"
    by (rule arg_cong)
  then have kept: "pending_ship (fst (run self xs)) = pending_ship self"
    by simp
  show ?thesis
    using one many fresh kept run_pending_ship [of p self xs] by blast
qed

theorem pushcall_never_deduplicated_witness:
  "\<not> endswith ''foo'' [nl] \<and> \<not> endswith ''123'' [nl] \<and> \<not> endswith ''bar'' [nl] \<and>
   pushcalls (snd (run (init \<lparr>fileno = 1, tty = True\<rparr> Print_stdout)
                    (map Write [''foo'', ''123'', ''bar''])))
     = [(True, True), (True, True), (True, True)] \<and>
   pushcalls (snd (write_redirect (init \<lparr>fileno = 1, tty = True\<rparr> Print_stdout) ''foo''))
     = [(True, True)]"
  using pushcall_never_deduplicated
    [where sval = "''foo''" and self = "init \<lparr>fileno = 1, tty = True\<rparr> Print_stdout"
       and ws = "[''foo'', ''123'', ''bar'']" and orig = "\<lparr>fileno = 1, tty = True\<rparr>"
       and c = Print_stdout and xs = "[]" and p = False]
  by (simp add: endswith_def)

section \<open>No second echo through the log\<close>

lemma step_call: "call (fst (step self x)) = call self"
proof (cases x)
  case (Write sval)
  show ?thesis
    by (cases "endswith sval [nl]"; cases "join (linebits self @ [sval]) = []")
       (simp_all add: Write write_complete write_partial shiplog_nothing
          shiplog_something)
next
  case Fire
  show ?thesis
    by (cases "join (linebits self) = []")
       (simp_all add: Fire shiplog_nothing shiplog_something)
next
  case Do_flush
  show ?thesis by (simp add: Do_flush flush_def)
next
  case Do_isatty
  show ?thesis by (simp add: Do_isatty isatty_def)
qed

lemma step_to_stdout:
  "\<forall>record \<in> set (log_calls (snd (step self x))). snd record = False"
proof (cases x)
  case (Write sval)
  show ?thesis
    by (cases "endswith sval [nl]"; cases "join (linebits self @ [sval]) = []")
       (simp_all add: Write write_complete write_partial shiplog_nothing
          shiplog_something log_calls_def)
next
  case Fire
  show ?thesis
    by (cases "join (linebits self) = []")
       (simp_all add: Fire shiplog_nothing shiplog_something log_calls_def)
next
  case Do_flush
  show ?thesis by (simp add: Do_flush flush_def log_calls_def)
next
  case Do_isatty
  show ?thesis by (simp add: Do_isatty isatty_def log_calls_def)
qed

lemma step_echoes:
  "echoes (snd (step self x)) = map (\<lambda>sval. (call self, sval)) (written [x])"
proof (cases x)
  case (Write sval)
  show ?thesis
    by (cases "endswith sval [nl]"; cases "join (linebits self @ [sval]) = []")
       (simp_all add: Write write_complete write_partial shiplog_nothing
          shiplog_something echoes_def)
next
  case Fire
  show ?thesis
    by (cases "join (linebits self) = []")
       (simp_all add: Fire shiplog_nothing shiplog_something echoes_def)
next
  case Do_flush
  show ?thesis by (simp add: Do_flush flush_def echoes_def)
next
  case Do_isatty
  show ?thesis by (simp add: Do_isatty isatty_def echoes_def)
qed

lemma written_Cons: "written (x # xs) = written [x] @ written xs"
  by (cases x) simp_all

lemma run_to_stdout:
  "\<forall>record \<in> set (log_calls (snd (run self xs))). snd record = False"
proof (induction xs arbitrary: self)
  case Nil
  show ?case by (simp add: log_calls_def)
next
  case (Cons x xs)
  show ?case
    using step_to_stdout [of self x] Cons.IH [of "fst (step self x)"]
    by (simp only: run_Cons snd_conv log_calls_append set_append) blast
qed

lemma run_echoes:
  "echoes (snd (run self xs)) = map (\<lambda>sval. (call self, sval)) (written xs)"
proof (induction xs arbitrary: self)
  case Nil
  show ?case by (simp add: echoes_def)
next
  case (Cons x xs)
  have "echoes (snd (run self (x # xs))) =
        map (\<lambda>sval. (call self, sval)) (written [x]) @
        map (\<lambda>sval. (call self, sval)) (written xs)"
    by (simp only: run_Cons snd_conv echoes_append step_echoes Cons.IH step_call)
  then show ?case
    by (simp only: written_Cons [of x xs] map_append)
qed

text \<open>
  C10. In every run of operations on an object, every call of \<open>_ba.log\<close> passes
  \<open>to_stdout=False\<close>. The calls of the echo callback in the run are, in order, one
  for each write with the text of that write: the log path adds none.
\<close>

theorem log_never_to_stdout:
  "(\<forall>record \<in> set (log_calls (snd (run self xs))). snd record = False) \<and>
   echoes (snd (run self xs)) = map (\<lambda>sval. (call self, sval)) (written xs)"
  using run_to_stdout [of self xs] run_echoes [of self xs] by (rule conjI)

theorem log_never_to_stdout_witness:
  "log_calls (snd (run (init \<lparr>fileno = 1, tty = True\<rparr> Print_stdout)
                   [Write ''a'', Fire, Write (''b'' @ [nl])]))
     = [(''a'', False), (''b'', False)] \<and>
   echoes (snd (run (init \<lparr>fileno = 1, tty = True\<rparr> Print_stdout)
                [Write ''a'', Fire, Write (''b'' @ [nl])]))
     = [(Print_stdout, ''a''), (Print_stdout, ''b'' @ [nl])]"
  using log_never_to_stdout
    [of "init \<lparr>fileno = 1, tty = True\<rparr> Print_stdout"
        "[Write ''a'', Fire, Write (''b'' @ [nl])]"]
  by (simp add: init_def write_redirect_def shiplog_def join_def endswith_def
        drop_last_def log_calls_def echoes_def)

end
